theory Spec2Isabelle
  imports Complex_Main "HOL-Library.Extended_Nat"
begin

section \<open>Strings and characters\<close>

text \<open>
  A Python \<open>str\<close> is a sequence of Unicode code points, and \<open>len\<close> counts code
  points. A string is therefore modelled as a list of code points (natural numbers);
  \<open>lit\<close> turns an ASCII literal into such a list.
\<close>

type_synonym str = "nat list"

definition lit :: "string \<Rightarrow> str" where
  "lit s = map of_char s"

text \<open>The characters the program names: space, underscore, dot, slash, newline.\<close>

definition c_space :: nat where "c_space = 32"
definition c_us :: nat where "c_us = 95"
definition c_dot :: nat where "c_dot = 46"
definition c_slash :: nat where "c_slash = 47"
definition c_nl :: nat where "c_nl = 10"

section \<open>sanitize_filename\<close>

text \<open>\<open>filename.replace(' ', '_')\<close> and \<open>re.sub\<close> with a one-character class.\<close>

definition replace_char :: "nat \<Rightarrow> nat \<Rightarrow> str \<Rightarrow> str" where
  "replace_char a b s = map (\<lambda>c. if c = a then b else c) s"

text \<open>The class \<open>[<>:"/\\|?*]\<close>: code points 60 62 58 34 47 92 124 63 42.\<close>

definition unsafe_chars :: "nat list" where
  "unsafe_chars = [60, 62, 58, 34, 47, 92, 124, 63, 42]"

definition sub_unsafe :: "str \<Rightarrow> str" where
  "sub_unsafe s = map (\<lambda>c. if c \<in> set unsafe_chars then c_us else c) s"

text \<open>The class \<open>[\x00-\x1f\x7f]\<close>, substituted by the empty string.\<close>

definition is_control :: "nat \<Rightarrow> bool" where
  "is_control c \<longleftrightarrow> c \<le> 31 \<or> c = 127"

definition remove_control :: "str \<Rightarrow> str" where
  "remove_control s = filter (\<lambda>c. \<not> is_control c) s"

text \<open>\<open>s.strip(chars)\<close>: drop the characters of \<open>chars\<close> from both ends.\<close>

definition py_strip :: "nat list \<Rightarrow> str \<Rightarrow> str" where
  "py_strip cs s =
     rev (dropWhile (\<lambda>c. c \<in> set cs) (rev (dropWhile (\<lambda>c. c \<in> set cs) s)))"

text \<open>\<open>re.sub(r'_+', '_', s)\<close>: every maximal run of underscores becomes one.\<close>

fun collapse_us :: "str \<Rightarrow> str" where
  "collapse_us (a # b # r) =
     (if a = c_us \<and> b = c_us then collapse_us (b # r) else a # collapse_us (b # r))"
| "collapse_us s = s"

text \<open>
  \<open>s.rfind(c)\<close>: the highest index of \<open>c\<close>, or \<open>-1\<close>.
\<close>

definition rfind :: "nat \<Rightarrow> str \<Rightarrow> int" where
  "rfind c s =
     (if c \<in> set s then int (length s) - 1 - int (length (takeWhile (\<lambda>x. x \<noteq> c) (rev s)))
      else - 1)"

text \<open>
  \<open>os.path.splitext\<close> (the library's \<open>genericpath._splitext\<close> with separator
  \<open>/\<close> and extension separator \<open>.\<close>): the extension starts at the last dot,
  provided the dot comes after the last separator and some character between the
  separator and that dot is not a dot (leading dots do not start an extension).
\<close>

definition splitext :: "str \<Rightarrow> str \<times> str" where
  "splitext p =
     (let sepIndex = rfind c_slash p;
          dotIndex = rfind c_dot p
      in if dotIndex > sepIndex \<and>
            list_ex (\<lambda>c. c \<noteq> c_dot)
              (take (nat (dotIndex - (sepIndex + 1))) (drop (nat (sepIndex + 1)) p))
         then (take (nat dotIndex) p, drop (nat dotIndex) p)
         else (p, []))"

text \<open>
  The slice \<open>xs[:k]\<close>: a negative \<open>k\<close> counts from the end.
\<close>

definition slice_to :: "int \<Rightarrow> 'a list \<Rightarrow> 'a list" where
  "slice_to k xs =
     (if 0 \<le> k then take (nat k) xs else take (nat (int (length xs) + k)) xs)"

definition truncate_name :: "str \<Rightarrow> str" where
  "truncate_name filename =
     (if length filename > 200
      then (let (name, ext) = splitext filename;
                name' = slice_to (200 - int (length ext)) name
            in name' @ ext)
      else filename)"

definition sanitize_filename :: "str \<Rightarrow> bool \<Rightarrow> str" where
  "sanitize_filename filename replace_spaces =
     (let f1 = (if replace_spaces then replace_char c_space c_us filename else filename);
          f2 = sub_unsafe f1;
          f3 = remove_control f2;
          f4 = py_strip [c_dot, c_us, c_space] f3;
          f5 = collapse_us f4;
          f6 = truncate_name f5
      in if f6 = [] \<or> f6 = [c_us] then lit ''unnamed_thread'' else f6)"

section \<open>JSON values and the environment\<close>

text \<open>
  The value \<open>json.load\<close> returns: \<open>None\<close>, a bool, an int, a float, a string, a list
  or a dict. A dict keeps its insertion order, so it is an association list; its keys
  are distinct in every value the parser builds, and a lookup takes the first binding.
\<close>

datatype json =
    JNull
  | JBool bool
  | JInt int
  | JFloat rat
  | JStr str
  | JArr "json list"
  | JObj "(str \<times> json) list"

datatype exn = AttributeError | TypeError | ValueError | OSError

datatype load_result = Loaded json | JSONDecodeError | UnicodeDecodeError | OtherError

text \<open>
  What the program takes from the interpreter, its libraries and the operating system:
  the Unicode database (the decimal digit value of a code point, which \<open>\d\<close> and
  \<open>int\<close> share, and \<open>str.isspace\<close>), the interpreter's limit on the digits of an
  integer string (0 means no limit; \<open>int\<close> raises \<open>ValueError\<close> beyond it), \<open>str()\<close> of
  a value that is not a string, \<open>datetime.fromisoformat\<close> followed by \<open>strftime\<close>
  (\<open>None\<close> when it raises), the size in bytes of a written text file, the float formats
  \<open>.1f\<close> and \<open>.2f\<close>, the two readings of the clock, \<open>Path(...).stem\<close>, and reading
  and parsing the input file with the encodings \<open>utf-8\<close> and \<open>utf-8-sig\<close>.
  Console output is not modelled, and writing a file is assumed to succeed.
\<close>

record env =
  decimal :: "nat \<Rightarrow> nat option"
  isspace :: "nat \<Rightarrow> bool"
  max_str_digits :: nat
  repr :: "json \<Rightarrow> str"
  iso_date :: "str \<Rightarrow> str option"
  getsize :: "str \<Rightarrow> nat"
  fmt1 :: "rat \<Rightarrow> str"
  fmt2 :: "rat \<Rightarrow> str"
  now_stamp :: str
  now_date :: str
  path_stem :: "str \<Rightarrow> str"
  load_utf8 :: "str \<Rightarrow> load_result"
  load_utf8_sig :: "str \<Rightarrow> load_result"

text \<open>Truth value of a Python object.\<close>

fun truthy :: "json \<Rightarrow> bool" where
  "truthy JNull = False"
| "truthy (JBool b) = b"
| "truthy (JInt i) = (i \<noteq> 0)"
| "truthy (JFloat r) = (r \<noteq> 0)"
| "truthy (JStr s) = (s \<noteq> [])"
| "truthy (JArr xs) = (xs \<noteq> [])"
| "truthy (JObj kvs) = (kvs \<noteq> [])"

fun is_dict :: "json \<Rightarrow> bool" where
  "is_dict (JObj kvs) = True"
| "is_dict v = False"

fun items :: "json \<Rightarrow> (str \<times> json) list" where
  "items (JObj kvs) = kvs"
| "items v = []"

text \<open>\<open>d.get(k, default)\<close> on a dict.\<close>

definition dict_get :: "json \<Rightarrow> str \<Rightarrow> json \<Rightarrow> json" where
  "dict_get d k dflt = (case map_of (items d) k of Some v \<Rightarrow> v | None \<Rightarrow> dflt)"

text \<open>\<open>mapping.items()\<close>: only a dict has the method.\<close>

fun py_items :: "json \<Rightarrow> exn + (str \<times> json) list" where
  "py_items (JObj kvs) = Inr kvs"
| "py_items v = Inl AttributeError"

text \<open>
  \<open>for fragment in fragments\<close>: a list gives its elements, a string its characters,
  a dict its keys; anything else is not iterable.
\<close>

fun py_iter :: "json \<Rightarrow> exn + json list" where
  "py_iter (JArr xs) = Inr xs"
| "py_iter (JStr s) = Inr (map (\<lambda>c. JStr [c]) s)"
| "py_iter (JObj kvs) = Inr (map (\<lambda>kv. JStr (fst kv)) kvs)"
| "py_iter v = Inl TypeError"

text \<open>The text an f-string puts in for a value: a string as it is, else its \<open>str()\<close>.\<close>

fun py_str :: "env \<Rightarrow> json \<Rightarrow> str" where
  "py_str E (JStr s) = s"
| "py_str E v = repr E v"

text \<open>\<open>s.strip()\<close>: white space dropped from both ends.\<close>

definition strip_ws :: "env \<Rightarrow> str \<Rightarrow> str" where
  "strip_ws E s = rev (dropWhile (isspace E) (rev (dropWhile (isspace E) s)))"

section \<open>Decimal numerals\<close>

text \<open>\<open>str(n)\<close> for a natural number and for an integer, and the format \<open>03d\<close>.\<close>

fun str_nat :: "nat \<Rightarrow> str" where
  "str_nat n = (if n < 10 then [48 + n] else str_nat (n div 10) @ [48 + n mod 10])"

declare str_nat.simps [simp del]

definition str_int :: "int \<Rightarrow> str" where
  "str_int i = (if i < 0 then 45 # str_nat (nat (- i)) else str_nat (nat i))"

definition pad3 :: "str \<Rightarrow> str" where
  "pad3 s = replicate (3 - length s) 48 @ s"

section \<open>Extracting and ordering the turns\<close>

record message =
  msg_id :: str
  msg_type :: json
  msg_content :: str

text \<open>
  The loop over the fragments of one message. \<open>content and content.strip()\<close> skips a
  falsy content, and raises \<open>AttributeError\<close> on a truthy content that is not a string.
\<close>

fun fragment_loop :: "env \<Rightarrow> str \<Rightarrow> json list \<Rightarrow> message list \<Rightarrow> exn + message list" where
  "fragment_loop E mid [] all_messages = Inr all_messages"
| "fragment_loop E mid (fragment # rest) all_messages =
     (if is_dict fragment
      then (let mtype = dict_get fragment (lit ''type'') (JStr []);
                content = dict_get fragment (lit ''content'') (JStr [])
            in if truthy content
               then (case content of
                       JStr s \<Rightarrow>
                         if strip_ws E s \<noteq> []
                         then fragment_loop E mid rest
                                (all_messages @
                                  [\<lparr>msg_id = mid, msg_type = mtype, msg_content = s\<rparr>])
                         else fragment_loop E mid rest all_messages
                     | _ \<Rightarrow> Inl AttributeError)
               else fragment_loop E mid rest all_messages)
      else fragment_loop E mid rest all_messages)"

text \<open>The loop over \<open>mapping.items()\<close>.\<close>

fun mapping_loop :: "env \<Rightarrow> (str \<times> json) list \<Rightarrow> message list \<Rightarrow> exn + message list" where
  "mapping_loop E [] all_messages = Inr all_messages"
| "mapping_loop E ((mid, msg_data) # rest) all_messages =
     (if \<not> is_dict msg_data \<or> mid = lit ''root''
      then mapping_loop E rest all_messages
      else (let message = dict_get msg_data (lit ''message'') JNull
            in if \<not> truthy message \<or> \<not> is_dict message
               then mapping_loop E rest all_messages
               else (case py_iter (dict_get message (lit ''fragments'') (JArr [])) of
                       Inl e \<Rightarrow> Inl e
                     | Inr fragments \<Rightarrow>
                         (case fragment_loop E mid fragments all_messages of
                            Inl e \<Rightarrow> Inl e
                          | Inr all_messages' \<Rightarrow> mapping_loop E rest all_messages'))))"

text \<open>
  \<open>re.findall(r'\d+', s)\<close>: the maximal runs of decimal digits, from left to right.
  \<open>cur\<close> is the run being read.
\<close>

definition is_digit :: "env \<Rightarrow> nat \<Rightarrow> bool" where
  "is_digit E c = (decimal E c \<noteq> None)"

fun digit_runs :: "env \<Rightarrow> str \<Rightarrow> str \<Rightarrow> str list" where
  "digit_runs E cur [] = (if cur = [] then [] else [cur])"
| "digit_runs E cur (c # cs) =
     (if is_digit E c then digit_runs E (cur @ [c]) cs
      else if cur = [] then digit_runs E [] cs
      else cur # digit_runs E [] cs)"

definition findall_digits :: "env \<Rightarrow> str \<Rightarrow> str list" where
  "findall_digits E s = digit_runs E [] s"

text \<open>The value of a run of decimal digits, read in base ten.\<close>

definition digits_value :: "env \<Rightarrow> str \<Rightarrow> nat" where
  "digits_value E ds =
     foldl (\<lambda>a c. 10 * a + (case decimal E c of Some d \<Rightarrow> d | None \<Rightarrow> 0)) 0 ds"

text \<open>
  \<open>int(ds)\<close> for a run of digits: \<open>ValueError\<close> when the interpreter limits the
  number of digits and the run is longer.
\<close>

definition py_int :: "env \<Rightarrow> str \<Rightarrow> exn + nat" where
  "py_int E ds =
     (if max_str_digits E > 0 \<and> length ds > max_str_digits E then Inl ValueError
      else Inr (digits_value E ds))"

text \<open>The sort key; \<open>float('inf')\<close> is \<open>\<infinity>\<close>, greater than every integer.\<close>

definition extract_numeric_id :: "env \<Rightarrow> str \<Rightarrow> exn + enat" where
  "extract_numeric_id E mid =
     (case findall_digits E mid of
        [] \<Rightarrow> Inr \<infinity>
      | n # ns \<Rightarrow> (case py_int E n of Inl e \<Rightarrow> Inl e | Inr k \<Rightarrow> Inr (enat k)))"

text \<open>
  \<open>all_messages.sort(key=...)\<close> inside \<open>try ... except: pass\<close>. \<open>list.sort\<close>
  computes every key first and leaves the list as it was when a key raises; otherwise
  it sorts stably.
\<close>

definition sort_messages :: "env \<Rightarrow> message list \<Rightarrow> message list" where
  "sort_messages E all_messages =
     (if list_ex (\<lambda>m. isl (extract_numeric_id E (msg_id m))) all_messages
      then all_messages
      else sort_key (\<lambda>m. projr (extract_numeric_id E (msg_id m))) all_messages)"

section \<open>Writing a thread\<close>

text \<open>The headings; the two pictographs are the code points U+1F464 and U+1F916.\<close>

definition user_heading :: str where
  "user_heading = lit ''### '' @ [128100] @ lit '' Sie'' @ [c_nl, c_nl]"

definition assistant_heading :: str where
  "assistant_heading = lit ''### '' @ [129302] @ lit '' DeepSeek'' @ [c_nl, c_nl]"

definition heading :: "env \<Rightarrow> json \<Rightarrow> str" where
  "heading E t =
     (if t = JStr (lit ''REQUEST'') then user_heading
      else if t = JStr (lit ''RESPONSE'') then assistant_heading
      else lit ''### '' @ py_str E t @ [c_nl, c_nl])"

definition notice :: "int \<Rightarrow> str" where
  "notice remaining =
     [c_nl] @ lit ''> *Hinweis: '' @ str_int remaining @ lit '' weitere Nachrichten gek'' @
     [252] @ lit ''rzt.*'' @ [c_nl]"

text \<open>\<open>limit and i > limit\<close>, \<open>limit and i >= limit\<close>: \<open>None\<close> and 0 are falsy.\<close>

definition limit_set :: "int option \<Rightarrow> bool" where
  "limit_set l = (case l of None \<Rightarrow> False | Some n \<Rightarrow> n \<noteq> 0)"

text \<open>
  The loop that writes the turns. The state is the text written so far and the
  counters \<open>thread_messages\<close> and \<open>total_messages\<close>; \<open>n\<close> is \<open>len(all_messages)\<close> and
  \<open>i\<close> the index of the next turn.
\<close>

fun write_messages ::
  "env \<Rightarrow> int option \<Rightarrow> nat \<Rightarrow> nat \<Rightarrow> message list \<Rightarrow> str \<times> nat \<times> nat \<Rightarrow> str \<times> nat \<times> nat" where
  "write_messages E mm n i [] st = st"
| "write_messages E mm n i (msg # rest) (out, thread_messages, total_messages) =
     (if limit_set mm \<and> int i \<ge> the mm
      then (out @ notice (int n - the mm), thread_messages, total_messages)
      else write_messages E mm n (Suc i) rest
             (out @ heading E (msg_type msg) @ msg_content msg @ [c_nl, c_nl],
              thread_messages + 1, total_messages + 1))"

section \<open>The file system and the state of a run\<close>

text \<open>
  The file system holds the directories made and the text of every file. Opening a file
  with mode \<open>w\<close> replaces its text, mode \<open>a\<close> appends to it. \<open>os.path.join\<close> puts
  the separator between the folder and a relative name.
\<close>

record filesystem =
  dirs :: "str set"
  files :: "str \<rightharpoonup> str"

definition write_file :: "filesystem \<Rightarrow> str \<Rightarrow> str \<Rightarrow> filesystem" where
  "write_file fs p text = fs\<lparr>files := (files fs)(p \<mapsto> text)\<rparr>"

definition append_file :: "filesystem \<Rightarrow> str \<Rightarrow> str \<Rightarrow> filesystem" where
  "append_file fs p text =
     fs\<lparr>files := (files fs)(p \<mapsto> (case files fs p of None \<Rightarrow> text | Some old \<Rightarrow> old @ text))\<rparr>"

definition path_exists :: "filesystem \<Rightarrow> str \<Rightarrow> bool" where
  "path_exists fs p \<longleftrightarrow> p \<in> dirs fs \<or> files fs p \<noteq> None"

definition path_join :: "str \<Rightarrow> str \<Rightarrow> str" where
  "path_join folder name = folder @ [c_slash] @ name"

text \<open>\<open>os.path.getsize(p) / 1024\<close>.\<close>

definition file_size_kb :: "env \<Rightarrow> filesystem \<Rightarrow> str \<Rightarrow> rat" where
  "file_size_kb E fs p =
     (case files fs p of None \<Rightarrow> 0 | Some text \<Rightarrow> of_nat (getsize E text) / 1024)"

text \<open>One entry of \<open>stats\<close>, and the local variables the thread loop updates.\<close>

record stat =
  st_idx :: nat
  st_filename :: str
  st_title :: str
  st_messages :: nat
  st_size_kb :: rat

record run_state =
  fs :: filesystem
  total_threads :: nat
  total_messages :: nat
  stats :: "stat list"

text \<open>\<open>create_thread_folder\<close>: the folder name, and the file system with the folder.\<close>

definition create_thread_folder :: "env \<Rightarrow> str \<Rightarrow> filesystem \<Rightarrow> str \<times> filesystem" where
  "create_thread_folder E base_folder fsys =
     (let folder_name = base_folder @ [c_us] @ now_stamp E
      in (folder_name,
          if \<not> path_exists fsys folder_name
          then fsys\<lparr>dirs := insert folder_name (dirs fsys)\<rparr>
          else fsys))"

section \<open>The text of a thread file\<close>

text \<open>\<open>inserted_at.replace('Z', '+00:00')\<close>.\<close>

definition replace_Z :: "str \<Rightarrow> str" where
  "replace_Z s = concat (map (\<lambda>c. if c = 90 then lit ''+00:00'' else [c]) s)"

text \<open>
  The line for the creation time: written when \<open>inserted_at\<close> is truthy, with the
  formatted date, or with the value itself when anything in the \<open>try\<close> block raises.
\<close>

definition created_line :: "env \<Rightarrow> json \<Rightarrow> str" where
  "created_line E inserted_at =
     (if truthy inserted_at
      then lit ''- Erstellt: '' @
           (case inserted_at of
              JStr s \<Rightarrow> (case iso_date E (replace_Z s) of
                           Some formatted_date \<Rightarrow> formatted_date
                         | None \<Rightarrow> py_str E inserted_at)
            | _ \<Rightarrow> py_str E inserted_at) @ [c_nl]
      else [])"

definition thread_filename :: "nat \<Rightarrow> str \<Rightarrow> str" where
  "thread_filename thread_idx safe_title =
     pad3 (str_nat thread_idx) @ [c_us] @ safe_title @ lit ''.md''"

text \<open>What is written before the messages are extracted (96 is the backquote).\<close>

definition thread_header :: "env \<Rightarrow> str \<Rightarrow> json \<Rightarrow> json \<Rightarrow> str \<Rightarrow> str" where
  "thread_header E title thread_id inserted_at filename =
     lit ''# '' @ title @ [c_nl, c_nl] @
     lit ''**Metadaten:**'' @ [c_nl] @
     lit ''- Thread-ID: '' @ [96] @ py_str E thread_id @ [96, c_nl] @
     created_line E inserted_at @
     lit ''- Datei: '' @ [96] @ filename @ [96, c_nl] @
     [c_nl] @ lit ''---'' @ [c_nl, c_nl]"

definition chat_heading :: str where
  "chat_heading = lit ''## Chat-Verlauf'' @ [c_nl, c_nl]"

definition thread_footer :: "nat \<Rightarrow> str" where
  "thread_footer thread_messages =
     lit ''---'' @ [c_nl, c_nl] @
     lit ''**Statistik:** '' @ str_nat thread_messages @ lit '' Nachrichten'' @ [c_nl]"

section \<open>The index file\<close>

text \<open>The code points 220, 246 and 223 are the letters U umlaut, o umlaut and sharp s.\<close>

definition index_name :: str where
  "index_name = lit ''00_INDEX.md''"

definition index_header :: "env \<Rightarrow> str \<Rightarrow> json \<Rightarrow> str" where
  "index_header E input_file data =
     lit ''# DeepSeek Chat Export'' @ [c_nl, c_nl] @
     lit ''**Quelldatei:** '' @ [96] @ input_file @ [96, c_nl] @
     lit ''**Export-Datum:** '' @ now_date E @ [c_nl] @
     lit ''**Anzahl Threads:** '' @
       str_nat (case data of JArr xs \<Rightarrow> length xs | _ \<Rightarrow> 1) @ [c_nl, c_nl] @
     lit ''## Thread-'' @ [220] @ lit ''bersicht'' @ [c_nl, c_nl] @
     lit ''| Nr. | Datei | Titel | Nachrichten | Gr'' @ [246, 223] @ lit ''e |'' @ [c_nl] @
     lit ''|-----|-------|-------|-------------|-------|'' @ [c_nl]"

definition index_row :: "env \<Rightarrow> stat \<Rightarrow> str" where
  "index_row E s =
     lit ''| '' @ str_nat (st_idx s) @
     lit '' | ['' @ st_filename s @ lit ''](./'' @ st_filename s @
     lit '') | '' @ st_title s @
     lit '' | '' @ str_nat (st_messages s) @
     lit '' | '' @ fmt1 E (st_size_kb s) @ lit '' KB |'' @ [c_nl]"

text \<open>
  \<open>max(stats, key=...)\<close> and \<open>min(stats, key=...)\<close>: the first element with the
  greatest, respectively the least, key.
\<close>

fun py_max :: "('a \<Rightarrow> rat) \<Rightarrow> 'a \<Rightarrow> 'a list \<Rightarrow> 'a" where
  "py_max key best [] = best"
| "py_max key best (x # xs) = py_max key (if key x > key best then x else best) xs"

fun py_min :: "('a \<Rightarrow> rat) \<Rightarrow> 'a \<Rightarrow> 'a list \<Rightarrow> 'a" where
  "py_min key best [] = best"
| "py_min key best (x # xs) = py_min key (if key x < key best then x else best) xs"

definition extremes_lines :: "env \<Rightarrow> stat list \<Rightarrow> str" where
  "extremes_lines E sts =
     (case sts of
        [] \<Rightarrow> []
      | s # rest \<Rightarrow>
          (let largest = py_max st_size_kb s rest;
               smallest = py_min st_size_kb s rest
           in lit ''- **Gr'' @ [246, 223] @ lit ''te Datei:** '' @ st_filename largest @
              lit '' ('' @ fmt1 E (st_size_kb largest) @ lit '' KB)'' @ [c_nl] @
              lit ''- **Kleinste Datei:** '' @ st_filename smallest @
              lit '' ('' @ fmt1 E (st_size_kb smallest) @ lit '' KB)'' @ [c_nl]))"

definition index_footer :: "env \<Rightarrow> str \<Rightarrow> run_state \<Rightarrow> str" where
  "index_footer E folder st =
     [c_nl] @ lit ''## Gesamtstatistik'' @ [c_nl] @
     lit ''- **Exportierte Threads:** '' @ str_nat (total_threads st) @ [c_nl] @
     lit ''- **Gesamtnachrichten:** '' @ str_nat (total_messages st) @ [c_nl] @
     (if total_threads st > 0
      then lit ''- **Durchschnitt pro Thread:** '' @
           fmt1 E (of_nat (total_messages st) / of_nat (total_threads st)) @
           lit '' Nachrichten'' @ [c_nl]
      else []) @
     lit ''- **Gesamtgr'' @ [246, 223] @ lit ''e:** '' @
       fmt2 E (sum_list (map st_size_kb (stats st)) / 1024) @ lit '' MB'' @ [c_nl] @
     extremes_lines E (stats st) @
     [c_nl] @ lit ''**Ordner:** '' @ [96] @ folder @ [96, c_nl] @
     lit ''**Index:** [00_INDEX.md](./00_INDEX.md)'' @ [c_nl]"

section \<open>export_threads\<close>

text \<open>
  The body of the thread loop for a thread that is a dict. A title that is not a string
  makes \<open>sanitize_filename\<close> raise before the file is opened; a mapping without
  \<open>items\<close> and a failure while the turns are extracted leave the file with its header.
\<close>

definition process_thread ::
  "env \<Rightarrow> str \<Rightarrow> int option \<Rightarrow> nat \<Rightarrow> json \<Rightarrow> run_state \<Rightarrow> exn option \<times> run_state" where
  "process_thread E folder max_messages_per_file thread_idx thread st =
     (let thread_id = dict_get thread (lit ''id'') (JStr []);
          title = dict_get thread (lit ''title'') (JStr (lit ''Thread_'' @ str_nat thread_idx));
          inserted_at = dict_get thread (lit ''inserted_at'') (JStr [])
      in case title of
           JStr t \<Rightarrow>
             (let safe_title = sanitize_filename t True;
                  filename = thread_filename thread_idx safe_title;
                  filepath = path_join folder filename;
                  out0 = thread_header E t thread_id inserted_at filename
              in case py_items (dict_get thread (lit ''mapping'') (JObj [])) of
                   Inl e \<Rightarrow> (Some e, st\<lparr>fs := write_file (fs st) filepath out0\<rparr>)
                 | Inr mapping \<Rightarrow>
                     (case mapping_loop E mapping [] of
                        Inl e \<Rightarrow> (Some e, st\<lparr>fs := write_file (fs st) filepath out0\<rparr>)
                      | Inr all_messages \<Rightarrow>
                          (let sorted = sort_messages E all_messages;
                               out1 = out0 @ chat_heading;
                               (out2, thread_messages, total') =
                                  write_messages E max_messages_per_file (length sorted) 0 sorted
                                    (out1, 0, total_messages st);
                               out3 = out2 @ thread_footer thread_messages;
                               fs1 = write_file (fs st) filepath out3;
                               entry = \<lparr>st_idx = thread_idx, st_filename = filename,
                                        st_title = t, st_messages = thread_messages,
                                        st_size_kb = file_size_kb E fs1 filepath\<rparr>;
                               fs2 = append_file fs1 (path_join folder index_name)
                                       (index_row E entry)
                           in (None, \<lparr>fs = fs2, total_threads = total_threads st + 1,
                                      total_messages = total',
                                      stats = stats st @ [entry]\<rparr>))))
         | _ \<Rightarrow> (Some AttributeError, st))"

text \<open>
  The loop \<open>for thread_idx, thread in enumerate(data, 1)\<close>, over the pairs that
  \<open>enumerate\<close> yields: \<open>break\<close> beyond the limit, \<open>continue\<close> on a thread that is
  not a dict, and an exception ends the loop.
\<close>

fun thread_loop ::
  "env \<Rightarrow> str \<Rightarrow> int option \<Rightarrow> int option \<Rightarrow> (nat \<times> json) list \<Rightarrow> run_state \<Rightarrow>
   exn option \<times> run_state" where
  "thread_loop E folder max_threads mm [] st = (None, st)"
| "thread_loop E folder max_threads mm ((thread_idx, thread) # rest) st =
     (if limit_set max_threads \<and> int thread_idx > the max_threads then (None, st)
      else if \<not> is_dict thread then thread_loop E folder max_threads mm rest st
      else (case process_thread E folder mm thread_idx thread st of
              (Some e, st') \<Rightarrow> (Some e, st')
            | (None, st') \<Rightarrow> thread_loop E folder max_threads mm rest st'))"

datatype outcome = Returned "str option" | Raised exn

text \<open>\<open>if not isinstance(data, list): data = [data]\<close>.\<close>

fun as_threads :: "json \<Rightarrow> json list" where
  "as_threads (JArr xs) = xs"
| "as_threads v = [v]"

text \<open>\<open>export_threads\<close> once the data is loaded.\<close>

definition run_export ::
  "env \<Rightarrow> str \<Rightarrow> int option \<Rightarrow> int option \<Rightarrow> json \<Rightarrow> filesystem \<Rightarrow> outcome \<times> run_state" where
  "run_export E input_file max_threads max_messages_per_file data fs0 =
     (let (folder, fs1) = create_thread_folder E (lit ''deepseek_'' @ path_stem E input_file) fs0;
          index_file = path_join folder index_name;
          fs2 = write_file fs1 index_file (index_header E input_file data);
          threads = as_threads data;
          (err, st) = thread_loop E folder max_threads max_messages_per_file
                        (List.enumerate 1 threads)
                        \<lparr>fs = fs2, total_threads = 0, total_messages = 0, stats = []\<rparr>
      in case err of
           Some e \<Rightarrow> (Raised e, st)
         | None \<Rightarrow>
             (Returned (Some folder),
              st\<lparr>fs := append_file (fs st) index_file (index_footer E folder st)\<rparr>))"

text \<open>
  \<open>export_threads\<close>: the value returned or the exception raised, and the file system
  it leaves. An error other than the two the first \<open>try\<close> catches propagates.
\<close>

definition export_threads ::
  "env \<Rightarrow> str \<Rightarrow> int option \<Rightarrow> int option \<Rightarrow> filesystem \<Rightarrow> outcome \<times> filesystem" where
  "export_threads E input_file max_threads max_messages_per_file fs0 =
     (case load_utf8 E input_file of
        JSONDecodeError \<Rightarrow> (Returned None, fs0)
      | UnicodeDecodeError \<Rightarrow>
          (case load_utf8_sig E input_file of
             Loaded data \<Rightarrow>
               (let (r, st) = run_export E input_file max_threads max_messages_per_file data fs0
                in (r, fs st))
           | _ \<Rightarrow> (Returned None, fs0))
      | OtherError \<Rightarrow> (Raised OSError, fs0)
      | Loaded data \<Rightarrow>
          (let (r, st) = run_export E input_file max_threads max_messages_per_file data fs0
           in (r, fs st)))"

section \<open>Notions used in the statements\<close>

text \<open>
  An environment to run examples in: ASCII digits and white space, the interpreter's
  default limit of 4300 digits, and an input file that is not valid JSON.
\<close>

definition ascii_env :: env where
  "ascii_env =
     \<lparr>decimal = (\<lambda>c. if 48 \<le> c \<and> c \<le> 57 then Some (c - 48) else None),
      isspace = (\<lambda>c. c \<in> set [9, 10, 11, 12, 13, 28, 29, 30, 31, 32]),
      max_str_digits = 4300,
      repr = (\<lambda>v. lit ''?''),
      iso_date = (\<lambda>s. None),
      getsize = length,
      fmt1 = (\<lambda>r. lit ''0.0''),
      fmt2 = (\<lambda>r. lit ''0.00''),
      now_stamp = lit ''20250101_120000'',
      now_date = lit ''01.01.2025 12:00:00'',
      path_stem = (\<lambda>s. lit ''chat''),
      load_utf8 = (\<lambda>s. JSONDecodeError),
      load_utf8_sig = (\<lambda>s. JSONDecodeError)\<rparr>"

definition empty_fs :: filesystem where
  "empty_fs = \<lparr>dirs = {}, files = Map.empty\<rparr>"

text \<open>The text of one turn, and the number of turns the writing loop writes.\<close>

definition render :: "env \<Rightarrow> message \<Rightarrow> str" where
  "render E m = heading E (msg_type m) @ msg_content m @ [c_nl, c_nl]"

definition written_count :: "int option \<Rightarrow> nat \<Rightarrow> nat \<Rightarrow> nat" where
  "written_count mm i len =
     (if limit_set mm then min len (nat (the mm - int i)) else len)"

text \<open>The text of the file of a thread with title \<open>t\<close> and the turns extracted.\<close>

definition thread_text ::
  "env \<Rightarrow> int option \<Rightarrow> nat \<Rightarrow> json \<Rightarrow> str \<Rightarrow> message list \<Rightarrow> str" where
  "thread_text E mm idx thread t all_messages =
     (let sorted = sort_messages E all_messages;
          k = written_count mm 0 (length sorted)
      in thread_header E t (dict_get thread (lit ''id'') (JStr []))
           (dict_get thread (lit ''inserted_at'') (JStr []))
           (thread_filename idx (sanitize_filename t True)) @
         chat_heading @
         concat (map (render E) (take k sorted)) @
         (if k < length sorted then notice (int (length sorted) - the mm) else []) @
         thread_footer k)"

definition thread_entry ::
  "env \<Rightarrow> int option \<Rightarrow> nat \<Rightarrow> json \<Rightarrow> str \<Rightarrow> message list \<Rightarrow> stat" where
  "thread_entry E mm idx thread t all_messages =
     \<lparr>st_idx = idx,
      st_filename = thread_filename idx (sanitize_filename t True),
      st_title = t,
      st_messages = written_count mm 0 (length (sort_messages E all_messages)),
      st_size_kb = of_nat (getsize E (thread_text E mm idx thread t all_messages)) / 1024\<rparr>"

text \<open>
  An input for examples: a thread with a response stored before its request, an entry
  that is not an object, and a thread with a fragment of another type and a malformed
  mapping entry.
\<close>

definition fragment :: "string \<Rightarrow> string \<Rightarrow> json" where
  "fragment ty content =
     JObj [(lit ''type'', JStr (lit ty)), (lit ''content'', JStr (lit content))]"

definition node :: "json list \<Rightarrow> json" where
  "node fragments = JObj [(lit ''message'', JObj [(lit ''fragments'', JArr fragments)])]"

definition example_data :: json where
  "example_data =
     JArr [JObj [(lit ''id'', JStr (lit ''a1'')),
                 (lit ''title'', JStr (lit ''First chat'')),
                 (lit ''mapping'',
                    JObj [(lit ''root'', JObj []),
                          (lit ''2'', node [fragment ''RESPONSE'' ''Hello'']),
                          (lit ''1'', node [fragment ''REQUEST'' ''Hi''])])],
           JInt 42,
           JObj [(lit ''title'', JStr (lit ''Second'')),
                 (lit ''mapping'',
                    JObj [(lit ''5'', node [fragment ''THINK'' ''hm'']),
                          (lit ''x'', JInt 7)])]]"

definition example_env :: env where
  "example_env = ascii_env\<lparr>load_utf8 := (\<lambda>s. Loaded example_data)\<rparr>"

definition example_folder :: str where
  "example_folder = lit ''deepseek_chat_20250101_120000''"

text \<open>
  The exception a thread that is a dict ends the run with, if any: \<open>AttributeError\<close>
  for a title that is not a string or a mapping that is not a dict, and whatever the
  extraction of the turns raises.
\<close>

definition thread_error :: "env \<Rightarrow> nat \<Rightarrow> json \<Rightarrow> exn option" where
  "thread_error E idx thread =
     (case dict_get thread (lit ''title'') (JStr (lit ''Thread_'' @ str_nat idx)) of
        JStr t \<Rightarrow>
          (case py_items (dict_get thread (lit ''mapping'') (JObj [])) of
             Inl e \<Rightarrow> Some e
           | Inr mapping \<Rightarrow>
               (case mapping_loop E mapping [] of Inl e \<Rightarrow> Some e | Inr all_messages \<Rightarrow> None))
      | _ \<Rightarrow> Some AttributeError)"

text \<open>The value of a decimal numeral, and the path of the index file.\<close>

definition dec_value :: "str \<Rightarrow> nat" where
  "dec_value ds = foldl (\<lambda>a c. 10 * a + (c - 48)) 0 ds"

definition index_path :: "str \<Rightarrow> str" where
  "index_path folder = path_join folder index_name"

text \<open>
  The title and the turns of a thread that raises no exception, the threads the loop
  exports (up to the \<open>break\<close> or the first exception, without the entries that are
  not objects), the exception the loop ends with, and the entry and the text of an
  exported thread.
\<close>

definition thread_title :: "nat \<Rightarrow> json \<Rightarrow> str" where
  "thread_title idx thread =
     (case dict_get thread (lit ''title'') (JStr (lit ''Thread_'' @ str_nat idx)) of
        JStr t \<Rightarrow> t
      | _ \<Rightarrow> [])"

definition thread_turns :: "env \<Rightarrow> json \<Rightarrow> message list" where
  "thread_turns E thread =
     (case py_items (dict_get thread (lit ''mapping'') (JObj [])) of
        Inl e \<Rightarrow> []
      | Inr mapping \<Rightarrow>
          (case mapping_loop E mapping [] of Inl e \<Rightarrow> [] | Inr all_messages \<Rightarrow> all_messages))"

fun exported_threads :: "env \<Rightarrow> int option \<Rightarrow> (nat \<times> json) list \<Rightarrow> (nat \<times> json) list" where
  "exported_threads E mt [] = []"
| "exported_threads E mt ((i, thread) # rest) =
     (if limit_set mt \<and> int i > the mt then []
      else if \<not> is_dict thread then exported_threads E mt rest
      else if thread_error E i thread \<noteq> None then []
      else (i, thread) # exported_threads E mt rest)"

fun loop_error :: "env \<Rightarrow> int option \<Rightarrow> (nat \<times> json) list \<Rightarrow> exn option" where
  "loop_error E mt [] = None"
| "loop_error E mt ((i, thread) # rest) =
     (if limit_set mt \<and> int i > the mt then None
      else if \<not> is_dict thread then loop_error E mt rest
      else if thread_error E i thread \<noteq> None then thread_error E i thread
      else loop_error E mt rest)"

definition entry_of :: "env \<Rightarrow> int option \<Rightarrow> nat \<times> json \<Rightarrow> stat" where
  "entry_of E mm it =
     thread_entry E mm (fst it) (snd it) (thread_title (fst it) (snd it)) (thread_turns E (snd it))"

definition text_of :: "env \<Rightarrow> int option \<Rightarrow> nat \<times> json \<Rightarrow> str" where
  "text_of E mm it =
     thread_text E mm (fst it) (snd it) (thread_title (fst it) (snd it)) (thread_turns E (snd it))"

text \<open>The name of the export folder.\<close>

definition export_folder :: "env \<Rightarrow> str \<Rightarrow> str" where
  "export_folder E input_file =
     lit ''deepseek_'' @ path_stem E input_file @ [c_us] @ now_stamp E"



text \<open>
  The numeric id of a message key in the words of the specification: the integer value
  of the first maximal run of digits of the key, and a value after all integers for a
  key without a digit. A key is within the interpreter's limit when that run is not
  longer than the limit, or there is no limit.
\<close>

definition first_run :: "env \<Rightarrow> str \<Rightarrow> str" where
  "first_run E s = takeWhile (is_digit E) (dropWhile (\<lambda>c. \<not> is_digit E c) s)"

definition spec_numeric_id :: "env \<Rightarrow> str \<Rightarrow> enat" where
  "spec_numeric_id E s =
     (if first_run E s = [] then \<infinity> else enat (digits_value E (first_run E s)))"

definition within_digit_limit :: "env \<Rightarrow> str \<Rightarrow> bool" where
  "within_digit_limit E s \<longleftrightarrow>
     max_str_digits E = 0 \<or> length (first_run E s) \<le> max_str_digits E"

text \<open>A turn with the given key, type and content.\<close>

definition turn :: "str \<Rightarrow> string \<Rightarrow> string \<Rightarrow> message" where
  "turn key ty content = \<lparr>msg_id = key, msg_type = JStr (lit ty), msg_content = lit content\<rparr>"

text \<open>Two adjacent underscores somewhere in the string.\<close>

fun adj_us :: "str \<Rightarrow> bool" where
  "adj_us (a # b # r) = ((a = c_us \<and> b = c_us) \<or> adj_us (b # r))"
| "adj_us s = False"

text \<open>A character that is neither filesystem-unsafe, nor a control character, nor a space.\<close>

definition clean_char :: "nat \<Rightarrow> bool" where
  "clean_char c \<longleftrightarrow> c \<notin> set unsafe_chars \<and> \<not> is_control c \<and> c \<noteq> c_space"


section \<open>Properties of sanitize_filename\<close>


lemma adj_us_index: "adj_us s \<longleftrightarrow> (\<exists>i. Suc i < length s \<and> s ! i = c_us \<and> s ! Suc i = c_us)"
proof (induction s rule: adj_us.induct)
  case (1 a b r)
  show ?case
  proof
    assume "adj_us (a # b # r)"
    then consider "a = c_us \<and> b = c_us" | "adj_us (b # r)" by auto
    then show "\<exists>i. Suc i < length (a # b # r) \<and> (a # b # r) ! i = c_us \<and> (a # b # r) ! Suc i = c_us"
    proof cases
      case 1
      then show ?thesis by (intro exI[of _ 0]) simp
    next
      case 2
      with "1.IH" obtain i where "Suc i < length (b # r)" "(b # r) ! i = c_us" "(b # r) ! Suc i = c_us" by auto
      then show ?thesis by (intro exI[of _ "Suc i"]) simp
    qed
  next
    assume "\<exists>i. Suc i < length (a # b # r) \<and> (a # b # r) ! i = c_us \<and> (a # b # r) ! Suc i = c_us"
    then obtain i where i: "Suc i < length (a # b # r)" "(a # b # r) ! i = c_us" "(a # b # r) ! Suc i = c_us" by blast
    show "adj_us (a # b # r)"
    proof (cases i)
      case 0
      with i show ?thesis by simp
    next
      case (Suc j)
      with i have "Suc j < length (b # r) \<and> (b # r) ! j = c_us \<and> (b # r) ! Suc j = c_us" by simp
      with "1.IH" show ?thesis by auto
    qed
  qed
qed simp_all

lemma set_collapse_us: "set (collapse_us s) \<subseteq> set s"
  by (induction s rule: collapse_us.induct) auto

lemma hd_collapse_us: "s \<noteq> [] \<Longrightarrow> collapse_us s \<noteq> [] \<and> (hd (collapse_us s) = c_us \<longleftrightarrow> hd s = c_us)"
  apply (induction s rule: collapse_us.induct) apply auto done

lemma collapse_us_no_adj: "\<not> adj_us (collapse_us s)"
proof (induction s rule: collapse_us.induct)
  case (1 a b r)
  have h: "collapse_us (b # r) \<noteq> [] \<and> (hd (collapse_us (b # r)) = c_us \<longleftrightarrow> b = c_us)"
    using hd_collapse_us[of "b # r"] by simp
  then obtain x xs where x: "collapse_us (b # r) = x # xs" by (cases "collapse_us (b # r)") auto
  with h have "x = c_us \<longleftrightarrow> b = c_us" by simp
  with 1 x show ?case by auto
qed simp_all

lemma adj_us_take: "\<not> adj_us s \<Longrightarrow> \<not> adj_us (take n s)"
  unfolding adj_us_index by auto

lemma adj_us_append_dot:
  assumes "\<not> adj_us a" "\<not> adj_us b" "b = [] \<or> hd b \<noteq> c_us"
  shows "\<not> adj_us (a @ b)"
  using assms
proof (induction a rule: adj_us.induct)
  case (1 x y r)
  then show ?case by auto
qed (cases b; simp)+

lemma adj_us_drop: "\<not> adj_us s \<Longrightarrow> \<not> adj_us (drop n s)"
  unfolding adj_us_index by auto

lemma rfind_in:
  assumes "c \<in> set s"
  shows "0 \<le> rfind c s \<and> nat (rfind c s) < length s \<and> s ! nat (rfind c s) = c"
proof -
  let ?k = "length (takeWhile (\<lambda>x. x \<noteq> c) (rev s))"
  have c': "c \<in> set (rev s)" using assms by simp
  have "takeWhile (\<lambda>x. x \<noteq> c) (rev s) \<noteq> rev s"
    using c' by (simp del: set_rev)
  then have "?k \<noteq> length (rev s)" by (metis length_takeWhile_le takeWhile_eq_take take_all_iff order_refl)
  then have k: "?k < length (rev s)" using length_takeWhile_le[of "\<lambda>x. x \<noteq> c" "rev s"] by linarith
  have r: "rev s ! ?k = c"
    using nth_length_takeWhile[OF k] by simp
  have "rfind c s = int (length s) - 1 - int ?k" using assms by (simp add: rfind_def)
  moreover have "rev s ! ?k = s ! (length s - 1 - ?k)" using k by (simp add: rev_nth)
  moreover have "nat (int (length s) - 1 - int ?k) = length s - 1 - ?k" using k by simp
  ultimately show ?thesis using k r by simp
qed

lemma splitext_cases:
  "splitext p = (p, []) \<or> (\<exists>d < length p. p ! d = c_dot \<and> splitext p = (take d p, drop d p))"
proof (cases "c_dot \<in> set p")
  case True
  from rfind_in[OF True] show ?thesis
    by (auto simp: splitext_def Let_def)
next
  case False
  then have "rfind c_dot p = - 1" by (simp add: rfind_def)
  moreover have "rfind c_slash p \<ge> - 1" using rfind_in[of c_slash p] by (cases "c_slash \<in> set p") (auto simp: rfind_def)
  ultimately show ?thesis by (simp add: splitext_def Let_def)
qed

lemma slice_to_take: "\<exists>m. slice_to k xs = take m xs"
  by (auto simp: slice_to_def)

lemma truncate_name_cases:
  "(\<exists>m. truncate_name s = take m s) \<or>
   (\<exists>m d. d < length s \<and> s ! d = c_dot \<and> truncate_name s = take m (take d s) @ drop d s)"
proof (cases "length s > 200")
  case False
  then have "truncate_name s = take (length s) s" by (simp add: truncate_name_def)
  then show ?thesis by blast
next
  case True
  from splitext_cases[of s] show ?thesis
  proof
    assume a: "splitext s = (s, [])"
    obtain m where "slice_to (200 - int (length ([]::nat list))) s = take m s"
      using slice_to_take by blast
    with a True have "truncate_name s = take m s" by (simp add: truncate_name_def)
    then show ?thesis by blast
  next
    assume "\<exists>d<length s. s ! d = c_dot \<and> splitext s = (take d s, drop d s)"
    then obtain d where d: "d < length s" "s ! d = c_dot" "splitext s = (take d s, drop d s)" by blast
    obtain m where "slice_to (200 - int (length (drop d s))) (take d s) = take m (take d s)"
      using slice_to_take by blast
    with d True have "truncate_name s = take m (take d s) @ drop d s" by (simp add: truncate_name_def)
    with d show ?thesis by blast
  qed
qed

lemma set_truncate_name: "set (truncate_name s) \<subseteq> set s"
  using truncate_name_cases[of s]
  by (auto dest: in_set_takeD in_set_dropD)

lemma c_dot_neq_us: "c_dot \<noteq> c_us"
  by (simp add: c_dot_def c_us_def)

lemma truncate_name_no_adj:
  assumes "\<not> adj_us s" shows "\<not> adj_us (truncate_name s)"
  using truncate_name_cases[of s]
proof
  assume "\<exists>m. truncate_name s = take m s"
  then show ?thesis using assms by (auto simp: adj_us_take)
next
  assume "\<exists>m d. d < length s \<and> s ! d = c_dot \<and> truncate_name s = take m (take d s) @ drop d s"
  then obtain m d where d: "d < length s" "s ! d = c_dot"
    "truncate_name s = take m (take d s) @ drop d s" by blast
  have "hd (drop d s) = c_dot" using d by (simp add: hd_drop_conv_nth)
  then have "drop d s = [] \<or> hd (drop d s) \<noteq> c_us" using c_dot_neq_us by simp
  then show ?thesis
    using d assms adj_us_append_dot[of "take m (take d s)" "drop d s"]
    by (simp add: adj_us_take adj_us_drop)
qed

lemma clean_stage3:
  "\<forall>c \<in> set (remove_control (sub_unsafe (replace_char c_space c_us s))). clean_char c"
  by (auto simp: remove_control_def sub_unsafe_def replace_char_def clean_char_def
      c_space_def c_us_def unsafe_chars_def is_control_def)

lemma set_py_strip: "set (py_strip cs s) \<subseteq> set s"
  by (auto simp: py_strip_def dest!: set_dropWhileD)

lemma clean_fallback: "\<forall>c \<in> set (lit ''unnamed_thread''). clean_char c"
  by (simp add: lit_def clean_char_def unsafe_chars_def is_control_def c_space_def)

lemma fallback_no_adj: "\<not> adj_us (lit ''unnamed_thread'')"
  by (simp add: lit_def c_us_def)

text \<open>
  Claim C4. Whatever the title, the name returned by \<open>sanitize_filename\<close> with
  \<open>replace_spaces=True\<close> has no character of the class \<open><>:"/\\|?*\<close>, no ASCII
  control character (0x00-0x1f, 0x7f), no space, and no two consecutive underscores.
\<close>

theorem sanitize_filename_safe:
  "(\<forall>c \<in> set (sanitize_filename t True).
      c \<notin> set unsafe_chars \<and> \<not> is_control c \<and> c \<noteq> c_space) \<and>
   (\<forall>i. Suc i < length (sanitize_filename t True) \<longrightarrow>
      \<not> (sanitize_filename t True ! i = c_us \<and> sanitize_filename t True ! Suc i = c_us))"
proof -
  let ?f3 = "remove_control (sub_unsafe (replace_char c_space c_us t))"
  let ?f5 = "collapse_us (py_strip [c_dot, c_us, c_space] ?f3)"
  let ?f6 = "truncate_name ?f5"
  have r: "sanitize_filename t True = (if ?f6 = [] \<or> ?f6 = [c_us] then lit ''unnamed_thread'' else ?f6)"
    by (simp add: sanitize_filename_def Let_def)
  have "set ?f6 \<subseteq> set ?f3"
    using set_truncate_name[of ?f5] set_collapse_us[of "py_strip [c_dot, c_us, c_space] ?f3"]
      set_py_strip[of "[c_dot, c_us, c_space]" ?f3] by blast
  then have c6: "\<forall>c \<in> set ?f6. clean_char c" using clean_stage3[of t] by blast
  have a6: "\<not> adj_us ?f6" by (rule truncate_name_no_adj) (rule collapse_us_no_adj)
  have "\<forall>c \<in> set (sanitize_filename t True). clean_char c"
    unfolding r using c6 clean_fallback by simp
  moreover have "\<not> adj_us (sanitize_filename t True)"
    unfolding r using a6 fallback_no_adj by simp
  ultimately show ?thesis
    unfolding adj_us_index clean_char_def by blast
qed

text \<open>The title \<open>a  b:c\<close> becomes \<open>a_b_c\<close>: underscores occur, never doubled.\<close>

theorem sanitize_filename_safe_witness:
  "c_us \<in> set (sanitize_filename (lit ''a  b:c'') True) \<and>
   c_us \<notin> set unsafe_chars \<and> \<not> is_control c_us \<and> c_us \<noteq> c_space \<and>
   \<not> (sanitize_filename (lit ''a  b:c'') True ! 1 = c_us \<and>
      sanitize_filename (lit ''a  b:c'') True ! Suc 1 = c_us)"
proof -
  have m: "sanitize_filename (lit ''a  b:c'') True = lit ''a_b_c''"
    by code_simp
  have "c_us \<in> set (lit ''a_b_c'')" by code_simp
  moreover have "Suc 1 < length (lit ''a_b_c'')" by code_simp
  ultimately show ?thesis
    using sanitize_filename_safe[of "lit ''a  b:c''"] unfolding m by blast
qed

lemma collapse_us_id: "c_us \<notin> set s \<Longrightarrow> collapse_us s = s"
  by (induction s rule: collapse_us.induct) auto

lemma sanitize_long_extension_eq:
  assumes "e = replicate n (98::nat)" "n \<ge> 200"
  shows "sanitize_filename (lit ''a.'' @ e) True = 46 # e"
proof -
  let ?s = "97 # 46 # e"
  have n0: "n \<noteq> 0" using assms(2) by simp
  have se: "set e = {98}" using assms(1) n0 by simp
  have le: "length e = n" using assms(1) by simp
  have ne: "e \<noteq> []" using n0 le by auto
  have laste: "last e = 98" using assms(1) n0 by simp
  have l: "lit ''a.'' @ e = ?s" by (simp add: lit_def)
  have me: "map f e = e" if "f 98 = 98" for f :: "nat \<Rightarrow> nat"
    by (rule map_idI) (simp add: se that)
  have 1: "replace_char c_space c_us ?s = ?s"
    by (simp add: replace_char_def c_space_def me)
  have 2: "sub_unsafe ?s = ?s"
    by (simp add: sub_unsafe_def unsafe_chars_def me)
  have 3: "remove_control ?s = ?s"
    by (simp add: remove_control_def is_control_def se)
  have r: "rev ?s = rev e @ [46, 97]" by simp
  have "hd (rev e @ [46, 97]) = 98" using ne laste by (simp add: hd_append hd_rev)
  then have "dropWhile (\<lambda>c. c \<in> set [c_dot, c_us, c_space]) (rev e @ [46, 97]) = rev e @ [46, 97]"
    by (simp add: dropWhile_eq_self_iff c_dot_def c_us_def c_space_def)
  then have 4: "py_strip [c_dot, c_us, c_space] ?s = ?s"
    unfolding py_strip_def by (simp add: c_dot_def c_us_def c_space_def)
  have 5: "collapse_us ?s = ?s"
    by (rule collapse_us_id) (simp add: c_us_def se)
  have sl: "rfind c_slash ?s = - 1" by (simp add: rfind_def c_slash_def se)
  have "takeWhile (\<lambda>x. x \<noteq> c_dot) (rev e @ [46, 97]) = rev e"
    by (subst takeWhile_append2) (auto simp: c_dot_def se)
  then have dt: "rfind c_dot ?s = 1"
    unfolding rfind_def r[symmetric] using le by (simp add: c_dot_def)
  have 6: "splitext ?s = ([97], 46 # e)"
    unfolding splitext_def sl dt Let_def by (simp add: c_dot_def)
  have 7: "truncate_name ?s = 46 # e"
    using assms(2) le by (simp add: truncate_name_def 6 slice_to_def)
  show ?thesis
    unfolding l sanitize_filename_def if_True 1 2 3 4 5 7 Let_def using ne by (simp add: c_us_def)
qed

text \<open>
  Claim C3. The name is meant to be cut to at most 200 characters, but the cut
  \<open>name[:200 - len(ext)]\<close> keeps the whole extension: for the title \<open>a.\<close> followed
  by 300 times \<open>b\<close> the extension has 301 characters, the slice bound is negative,
  the name part becomes empty and the result is the extension alone, 301 characters long.
\<close>

theorem sanitize_filename_long_extension:
  "sanitize_filename (lit ''a.'' @ replicate 300 98) True = 46 # replicate 300 98 \<and>
   length (sanitize_filename (lit ''a.'' @ replicate 300 98) True) = 301"
  using sanitize_long_extension_eq[of "replicate 300 98" 300] by simp



section \<open>The writing loop and the limits\<close>

lemma write_messages_eq:
  "write_messages E mm n i msgs (out, a, b) =
     (out @ concat (map (render E) (take (written_count mm i (length msgs)) msgs)) @
        (if written_count mm i (length msgs) < length msgs then notice (int n - the mm) else []),
      a + written_count mm i (length msgs), b + written_count mm i (length msgs))"
proof (induction msgs arbitrary: i out a b)
  case Nil
  then show ?case by (simp add: written_count_def)
next
  case (Cons m ms)
  show ?case
  proof (cases "limit_set mm \<and> int i \<ge> the mm")
    case True
    then have "written_count mm i (Suc (length ms)) = 0" by (simp add: written_count_def)
    with True show ?thesis by simp
  next
    case False
    have w: "written_count mm i (Suc (length ms)) = Suc (written_count mm (Suc i) (length ms))"
      using False by (auto simp: written_count_def min_def)
    show ?thesis
      using False by (simp add: Cons.IH w render_def)
  qed
qed

lemma limit_set_zero: "limit_set (Some 0) = limit_set None"
  by (simp add: limit_set_def)













text \<open>
  Claim C9. When the input is not valid JSON (\<open>JSONDecodeError\<close>), or cannot be
  decoded as UTF-8 and the second attempt with \<open>utf-8-sig\<close> does not load it either,
  \<open>export_threads\<close> returns \<open>None\<close> and leaves the file system as it was: no
  folder, no index file, no thread file.
\<close>

theorem unparsable_input_returns_none:
  assumes "load_utf8 E f = JSONDecodeError \<or>
           (load_utf8 E f = UnicodeDecodeError \<and> (\<forall>d. load_utf8_sig E f \<noteq> Loaded d))"
  shows "export_threads E f mt mm fs0 = (Returned None, fs0)"
  using assms by (auto simp: export_threads_def split: load_result.splits)

text \<open>Both cases: invalid JSON, and a decoding error followed by a failed retry.\<close>

theorem unparsable_input_returns_none_witness:
  "export_threads ascii_env (lit ''chat.json'') None None empty_fs = (Returned None, empty_fs) \<and>
   export_threads (ascii_env\<lparr>load_utf8 := (\<lambda>s. UnicodeDecodeError)\<rparr>) (lit ''chat.json'')
     None None empty_fs = (Returned None, empty_fs)"
proof -
  have "load_utf8 ascii_env (lit ''chat.json'') = JSONDecodeError"
    by (simp add: ascii_env_def)
  moreover have "load_utf8 (ascii_env\<lparr>load_utf8 := (\<lambda>s. UnicodeDecodeError)\<rparr>) (lit ''chat.json'') =
      UnicodeDecodeError \<and>
      (\<forall>d. load_utf8_sig (ascii_env\<lparr>load_utf8 := (\<lambda>s. UnicodeDecodeError)\<rparr>) (lit ''chat.json'') \<noteq> Loaded d)"
    by (simp add: ascii_env_def)
  ultimately show ?thesis
    using unparsable_input_returns_none[of ascii_env "lit ''chat.json''" None None empty_fs]
      unparsable_input_returns_none[of "ascii_env\<lparr>load_utf8 := (\<lambda>s. UnicodeDecodeError)\<rparr>"
        "lit ''chat.json''" None None empty_fs]
    by simp
qed



section \<open>File names\<close>

lemma str_nat_digits: "set (str_nat n) \<subseteq> {48..57}"
proof (induction n rule: str_nat.induct)
  case (1 n)
  show ?case
  proof (cases "n < 10")
    case True
    then show ?thesis by (simp add: str_nat.simps[of n])
  next
    case False
    have "n mod 10 < 10" by simp
    then have "48 + n mod 10 \<in> {48..57}" by auto
    with 1 False show ?thesis by (simp add: str_nat.simps[of n])
  qed
qed

lemma dec_value_snoc: "dec_value (ds @ [c]) = 10 * dec_value ds + (c - 48)"
  by (simp add: dec_value_def)

lemma dec_value_str_nat: "dec_value (str_nat n) = n"
proof (induction n rule: str_nat.induct)
  case (1 n)
  show ?case
  proof (cases "n < 10")
    case True
    then show ?thesis by (simp add: str_nat.simps[of n] dec_value_def)
  next
    case False
    with 1 have "dec_value (str_nat (n div 10)) = n div 10" by simp
    with False show ?thesis by (simp add: str_nat.simps[of n] dec_value_snoc)
  qed
qed

lemma dec_value_zeros: "dec_value (replicate k 48 @ ds) = dec_value ds"
proof -
  have "foldl (\<lambda>a c. 10 * a + (c - 48)) 0 (replicate k 48) = (0::nat)"
    by (induction k) simp_all
  then show ?thesis by (simp add: dec_value_def)
qed

lemma pad3_inj: "pad3 (str_nat i) = pad3 (str_nat j) \<Longrightarrow> i = j"
proof -
  assume "pad3 (str_nat i) = pad3 (str_nat j)"
  then have "dec_value (pad3 (str_nat i)) = dec_value (pad3 (str_nat j))" by simp
  then show "i = j" by (simp add: pad3_def dec_value_zeros dec_value_str_nat)
qed

lemma pad3_no_us: "c_us \<notin> set (pad3 (str_nat n))"
  using str_nat_digits[of n] by (auto simp: pad3_def c_us_def)

lemma length_pad3: "3 \<le> length (pad3 s)"
  by (simp add: pad3_def)

lemma takeWhile_thread_filename:
  "takeWhile (\<lambda>c. c \<noteq> c_us) (thread_filename i a) = pad3 (str_nat i)"
proof -
  have "takeWhile (\<lambda>c. c \<noteq> c_us) (pad3 (str_nat i) @ c_us # (a @ lit ''.md'')) =
        takeWhile (\<lambda>c. c \<noteq> c_us) (pad3 (str_nat i))"
    by (rule takeWhile_tail) simp
  also have "\<dots> = pad3 (str_nat i)" using pad3_no_us[of i] by (simp add: takeWhile_eq_all_conv) metis
  finally show ?thesis by (simp add: thread_filename_def)
qed

lemma thread_filename_inj: "thread_filename i a = thread_filename j b \<Longrightarrow> i = j"
  using takeWhile_thread_filename[of i a] takeWhile_thread_filename[of j b] pad3_inj by metis

lemma thread_filename_not_index: "thread_filename i a \<noteq> index_name"
proof
  assume "thread_filename i a = index_name"
  then have "takeWhile (\<lambda>c. c \<noteq> c_us) index_name = pad3 (str_nat i)"
    using takeWhile_thread_filename[of i a] by simp
  moreover have "length (takeWhile (\<lambda>c. c \<noteq> c_us) index_name) = 2"
    by (simp add: index_name_def lit_def c_us_def)
  ultimately show False using length_pad3[of "str_nat i"] by simp
qed

lemma path_join_inj: "path_join folder a = path_join folder b \<longleftrightarrow> a = b"
  by (simp add: path_join_def)



section \<open>The thread loop\<close>

lemma files_write_file [simp]:
  "files (write_file fsys p text) q = (if q = p then Some text else files fsys q)"
  "dirs (write_file fsys p text) = dirs fsys"
  by (simp_all add: write_file_def)

lemma files_append_file [simp]:
  "files (append_file fsys p text) q =
     (if q = p then Some (case files fsys p of None \<Rightarrow> text | Some old \<Rightarrow> old @ text)
      else files fsys q)"
  "dirs (append_file fsys p text) = dirs fsys"
  by (simp_all add: append_file_def)

lemma process_thread_None:
  assumes "thread_error E idx thread = None"
  shows "process_thread E folder mm idx thread st =
     (None,
      \<lparr>fs = append_file
               (write_file (fs st)
                  (path_join folder (st_filename (entry_of E mm (idx, thread))))
                  (text_of E mm (idx, thread)))
               (index_path folder) (index_row E (entry_of E mm (idx, thread))),
       total_threads = total_threads st + 1,
       total_messages = total_messages st + st_messages (entry_of E mm (idx, thread)),
       stats = stats st @ [entry_of E mm (idx, thread)]\<rparr>)"
proof -
  obtain t where t: "dict_get thread (lit ''title'') (JStr (lit ''Thread_'' @ str_nat idx)) = JStr t"
    using assms by (auto simp: thread_error_def split: json.splits)
  obtain mapping where m: "py_items (dict_get thread (lit ''mapping'') (JObj [])) = Inr mapping"
    using assms t by (auto simp: thread_error_def split: sum.splits)
  obtain all_messages where a: "mapping_loop E mapping [] = Inr all_messages"
    using assms t m by (auto simp: thread_error_def split: sum.splits)
  show ?thesis
    using t m a
    by (simp add: process_thread_def Let_def write_messages_eq thread_text_def thread_entry_def
        file_size_kb_def entry_of_def text_of_def thread_title_def thread_turns_def index_path_def)
qed

lemma process_thread_Some:
  assumes "thread_error E idx thread = Some e"
  shows "\<exists>fs'. process_thread E folder mm idx thread st = (Some e, st\<lparr>fs := fs'\<rparr>) \<and>
           dirs fs' = dirs (fs st) \<and>
           (\<forall>p. (\<forall>x. p \<noteq> path_join folder (thread_filename idx x)) \<longrightarrow>
                files fs' p = files (fs st) p)"
proof (cases "dict_get thread (lit ''title'') (JStr (lit ''Thread_'' @ str_nat idx))")
  case (JStr t)
  show ?thesis
  proof (cases "py_items (dict_get thread (lit ''mapping'') (JObj []))")
    case (Inl e')
    with JStr assms have "e' = e" by (simp add: thread_error_def)
    with JStr Inl show ?thesis
      by (intro exI[of _ "write_file (fs st) (path_join folder (thread_filename idx (sanitize_filename t True)))
            (thread_header E t (dict_get thread (lit ''id'') (JStr []))
               (dict_get thread (lit ''inserted_at'') (JStr []))
               (thread_filename idx (sanitize_filename t True)))"])
         (simp add: process_thread_def Let_def)
  next
    case (Inr mapping)
    with JStr assms obtain e' where "mapping_loop E mapping [] = Inl e'" "e' = e"
      by (auto simp: thread_error_def split: sum.splits)
    with JStr Inr show ?thesis
      by (intro exI[of _ "write_file (fs st) (path_join folder (thread_filename idx (sanitize_filename t True)))
            (thread_header E t (dict_get thread (lit ''id'') (JStr []))
               (dict_get thread (lit ''inserted_at'') (JStr []))
               (thread_filename idx (sanitize_filename t True)))"])
         (simp add: process_thread_def Let_def)
  qed
qed (use assms in \<open>auto simp: thread_error_def process_thread_def intro!: exI[of _ "fs st"]\<close>)


lemma thread_loop_counts:
  "fst (thread_loop E folder mt mm its st) = loop_error E mt its \<and>
   stats (snd (thread_loop E folder mt mm its st)) =
     stats st @ map (entry_of E mm) (exported_threads E mt its) \<and>
   total_threads (snd (thread_loop E folder mt mm its st)) =
     total_threads st + length (exported_threads E mt its) \<and>
   total_messages (snd (thread_loop E folder mt mm its st)) =
     total_messages st +
     sum_list (map (\<lambda>it. st_messages (entry_of E mm it)) (exported_threads E mt its))"
proof (induction E folder mt mm its st rule: thread_loop.induct)
  case (1 E folder mt mm st)
  show ?case by simp
next
  case (2 E folder mt mm i thread rest st)
  show ?case
  proof (cases "limit_set mt \<and> int i > the mt")
    case True
    then show ?thesis by simp
  next
    case nolimit: False
    then have nl: "(limit_set mt \<and> the mt < int i) = False" by simp
    show ?thesis
    proof (cases "is_dict thread")
      case False
      with nolimit "2.IH"(1) show ?thesis by (simp add: nl)
    next
      case True
      show ?thesis
      proof (cases "thread_error E i thread")
        case (Some e)
        from process_thread_Some[OF Some, of folder mm st] obtain fs' where
          "process_thread E folder mm i thread st = (Some e, st\<lparr>fs := fs'\<rparr>)" by blast
        with True Some show ?thesis by (simp add: nl)
      next
        case None
        let ?st1 = "snd (process_thread E folder mm i thread st)"
        have p: "process_thread E folder mm i thread st = (None, ?st1)"
          using process_thread_None[OF None, of folder mm st] by simp
        have ih: "fst (thread_loop E folder mt mm rest ?st1) = loop_error E mt rest \<and>
           stats (snd (thread_loop E folder mt mm rest ?st1)) =
             stats ?st1 @ map (entry_of E mm) (exported_threads E mt rest) \<and>
           total_threads (snd (thread_loop E folder mt mm rest ?st1)) =
             total_threads ?st1 + length (exported_threads E mt rest) \<and>
           total_messages (snd (thread_loop E folder mt mm rest ?st1)) =
             total_messages ?st1 +
             sum_list (map (\<lambda>it. st_messages (entry_of E mm it)) (exported_threads E mt rest))"
          by (rule "2.IH"(2)[OF nolimit _ p[symmetric] refl]) (simp add: True)
        have s1: "stats ?st1 = stats st @ [entry_of E mm (i, thread)]"
          "total_threads ?st1 = total_threads st + 1"
          "total_messages ?st1 = total_messages st + st_messages (entry_of E mm (i, thread))"
          using process_thread_None[OF None, of folder mm st] by simp_all
        have l: "thread_loop E folder mt mm ((i, thread) # rest) st =
                 thread_loop E folder mt mm rest ?st1"
          using True p by (cases "process_thread E folder mm i thread st") (auto simp: nl)
        show ?thesis
          unfolding l using ih s1 True None by (simp add: nl)
      qed
    qed
  qed
qed

lemma st_filename_entry_of:
  "st_filename (entry_of E mm (i, thread)) =
   thread_filename i (sanitize_filename (thread_title i thread) True)"
  by (simp add: entry_of_def thread_entry_def)

lemma thread_loop_files:
  assumes "distinct (map fst its)" "files (fs st) (index_path folder) = Some old"
  shows "dirs (fs (snd (thread_loop E folder mt mm its st))) = dirs (fs st) \<and>
     files (fs (snd (thread_loop E folder mt mm its st))) (index_path folder) =
       Some (old @ concat (map (\<lambda>it. index_row E (entry_of E mm it)) (exported_threads E mt its))) \<and>
     (\<forall>it \<in> set (exported_threads E mt its).
        files (fs (snd (thread_loop E folder mt mm its st)))
          (path_join folder (st_filename (entry_of E mm it))) = Some (text_of E mm it)) \<and>
     (\<forall>p. p \<noteq> index_path folder \<longrightarrow>
          (\<forall>i x. i \<in> fst ` set its \<longrightarrow> p \<noteq> path_join folder (thread_filename i x)) \<longrightarrow>
          files (fs (snd (thread_loop E folder mt mm its st))) p = files (fs st) p)"
  using assms
proof (induction E folder mt mm its st arbitrary: old rule: thread_loop.induct)
  case (1 E folder mt mm st)
  then show ?case by simp
next
  case (2 E folder mt mm i thread rest st)
  have d: "distinct (map fst rest)" "i \<notin> fst ` set rest" using "2.prems"(1) by auto
  have ni: "\<And>x. path_join folder (thread_filename i x) \<noteq> index_path folder"
    by (simp add: index_path_def path_join_inj thread_filename_not_index)
  show ?case
  proof (cases "limit_set mt \<and> int i > the mt")
    case True
    then show ?thesis using "2.prems"(2) by simp
  next
    case nolimit: False
    then have nl: "(limit_set mt \<and> the mt < int i) = False" by simp
    show ?thesis
    proof (cases "is_dict thread")
      case False
      have "thread_loop E folder mt mm ((i, thread) # rest) st = thread_loop E folder mt mm rest st"
        "exported_threads E mt ((i, thread) # rest) = exported_threads E mt rest"
        using False by (simp_all add: nl)
      then show ?thesis
        using "2.IH"(1)[OF nolimit False d(1) "2.prems"(2)] by auto
    next
      case True
      show ?thesis
      proof (cases "thread_error E i thread")
        case (Some e)
        from process_thread_Some[OF Some, of folder mm st] obtain fs' where f:
          "process_thread E folder mm i thread st = (Some e, st\<lparr>fs := fs'\<rparr>)"
          "dirs fs' = dirs (fs st)"
          "\<forall>p. (\<forall>x. p \<noteq> path_join folder (thread_filename i x)) \<longrightarrow> files fs' p = files (fs st) p"
          by blast
        have "files fs' (index_path folder) = files (fs st) (index_path folder)"
          using f(3) ni by metis
        with True Some f "2.prems"(2) show ?thesis by (auto simp: nl)
      next
        case None
        let ?st1 = "snd (process_thread E folder mm i thread st)"
        let ?e = "entry_of E mm (i, thread)"
        let ?pi = "path_join folder (st_filename ?e)"
        have p: "process_thread E folder mm i thread st = (None, ?st1)"
          using process_thread_None[OF None, of folder mm st] by simp
        have fs1: "fs ?st1 = append_file (write_file (fs st) ?pi (text_of E mm (i, thread)))
                     (index_path folder) (index_row E ?e)"
          using process_thread_None[OF None, of folder mm st] by simp
        have pne: "?pi \<noteq> index_path folder"
          using ni by (simp add: st_filename_entry_of)
        have idx1: "files (fs ?st1) (index_path folder) = Some (old @ index_row E ?e)"
          using "2.prems"(2) pne by (simp add: fs1)
        have l: "thread_loop E folder mt mm ((i, thread) # rest) st =
                 thread_loop E folder mt mm rest ?st1"
          using True p by (cases "process_thread E folder mm i thread st") (auto simp: nl)
        have ex: "exported_threads E mt ((i, thread) # rest) = (i, thread) # exported_threads E mt rest"
          using True None by (simp add: nl)
        let ?st' = "snd (thread_loop E folder mt mm rest ?st1)"
        have ih: "dirs (fs ?st') = dirs (fs ?st1) \<and>
           files (fs ?st') (index_path folder) =
             Some ((old @ index_row E ?e) @
                   concat (map (\<lambda>it. index_row E (entry_of E mm it)) (exported_threads E mt rest))) \<and>
           (\<forall>it \<in> set (exported_threads E mt rest).
              files (fs ?st') (path_join folder (st_filename (entry_of E mm it))) =
              Some (text_of E mm it)) \<and>
           (\<forall>p. p \<noteq> index_path folder \<longrightarrow>
              (\<forall>j x. j \<in> fst ` set rest \<longrightarrow> p \<noteq> path_join folder (thread_filename j x)) \<longrightarrow>
              files (fs ?st') p = files (fs ?st1) p)"
          by (rule "2.IH"(2)[OF nolimit _ p[symmetric] refl d(1) idx1]) (simp add: True)
        have keep: "files (fs ?st') ?pi = files (fs ?st1) ?pi"
        proof -
          have "\<forall>j x. j \<in> fst ` set rest \<longrightarrow> ?pi \<noteq> path_join folder (thread_filename j x)"
          proof (intro allI impI notI)
            fix j x
            assume j: "j \<in> fst ` set rest" and "?pi = path_join folder (thread_filename j x)"
            then have "i = j"
              using thread_filename_inj by (simp add: st_filename_entry_of path_join_inj)
            with j d(2) show False by simp
          qed
          with ih pne show ?thesis by blast
        qed
        have own: "files (fs ?st1) ?pi = Some (text_of E mm (i, thread))"
          using pne by (simp add: fs1)
        have frame: "\<forall>p. p \<noteq> index_path folder \<longrightarrow>
          (\<forall>j x. j \<in> fst ` set ((i, thread) # rest) \<longrightarrow> p \<noteq> path_join folder (thread_filename j x)) \<longrightarrow>
          files (fs ?st') p = files (fs st) p"
        proof (intro allI impI)
          fix p
          assume a: "p \<noteq> index_path folder"
            "\<forall>j x. j \<in> fst ` set ((i, thread) # rest) \<longrightarrow> p \<noteq> path_join folder (thread_filename j x)"
          then have "files (fs ?st') p = files (fs ?st1) p" using ih by auto
          moreover have "p \<noteq> ?pi" using a(2) by (auto simp: st_filename_entry_of)
          ultimately show "files (fs ?st') p = files (fs st) p" using a(1) by (simp add: fs1)
        qed
        have dirs1: "dirs (fs ?st1) = dirs (fs st)" by (simp add: fs1)
        show ?thesis
          unfolding l ex using ih keep own frame dirs1 by simp
      qed
    qed
  qed
qed



section \<open>The whole run\<close>

lemma distinct_enumerate: "distinct (map fst (List.enumerate n xs))"
  by (simp add: map_fst_enumerate)

lemma exported_threads_subset: "set (exported_threads E mt its) \<subseteq> set its"
  by (induction E mt its rule: exported_threads.induct) auto

lemma exported_threads_distinct:
  "distinct (map fst its) \<Longrightarrow> distinct (map fst (exported_threads E mt its))"
proof (induction E mt its rule: exported_threads.induct)
  case (2 E mt i thread rest)
  then show ?case
    using exported_threads_subset[of E mt rest] by (auto simp: image_iff)
qed simp

lemma exported_threads_ok:
  "it \<in> set (exported_threads E mt its) \<Longrightarrow> is_dict (snd it) \<and> thread_error E (fst it) (snd it) = None"
  by (induction E mt its rule: exported_threads.induct) (auto split: if_splits)

lemma run_export_unfold:
  "run_export E f mt mm data fs0 =
     (let folder = export_folder E f;
          st0 = \<lparr>fs = write_file (snd (create_thread_folder E (lit ''deepseek_'' @ path_stem E f) fs0))
                         (index_path folder) (index_header E f data),
                 total_threads = 0, total_messages = 0, stats = []\<rparr>;
          res = thread_loop E folder mt mm (List.enumerate 1 (as_threads data)) st0
      in case fst res of
           Some e \<Rightarrow> (Raised e, snd res)
         | None \<Rightarrow> (Returned (Some folder),
                    (snd res)\<lparr>fs := append_file (fs (snd res)) (index_path folder)
                                     (index_footer E folder (snd res))\<rparr>))"
proof -
  have "fst (create_thread_folder E (lit ''deepseek_'' @ path_stem E f) fs0) = export_folder E f"
    by (simp add: create_thread_folder_def export_folder_def Let_def)
  then show ?thesis
    by (simp add: run_export_def Let_def case_prod_beta index_path_def split: option.splits)
qed

lemma run_export_result:
  assumes "run_export E f mt mm data fs0 = (r, st)"
  defines "its \<equiv> List.enumerate 1 (as_threads data)"
  defines "folder \<equiv> export_folder E f"
  shows "r = (case loop_error E mt its of None \<Rightarrow> Returned (Some folder) | Some e \<Rightarrow> Raised e)"
    and "stats st = map (entry_of E mm) (exported_threads E mt its)"
    and "total_threads st = length (exported_threads E mt its)"
    and "total_messages st =
           sum_list (map (\<lambda>it. st_messages (entry_of E mm it)) (exported_threads E mt its))"
    and "files (fs st) (index_path folder) =
           Some (index_header E f data @
                 concat (map (\<lambda>it. index_row E (entry_of E mm it)) (exported_threads E mt its)) @
                 (if loop_error E mt its = None then index_footer E folder st else []))"
    and "\<forall>it \<in> set (exported_threads E mt its).
           files (fs st) (path_join folder (st_filename (entry_of E mm it))) = Some (text_of E mm it)"
proof -
  let ?st0 = "\<lparr>fs = write_file (snd (create_thread_folder E (lit ''deepseek_'' @ path_stem E f) fs0))
                         (index_path folder) (index_header E f data),
                 total_threads = 0, total_messages = 0, stats = []\<rparr>"
  let ?res = "thread_loop E folder mt mm its ?st0"
  note c = thread_loop_counts[of E folder mt mm its ?st0]
  have i0: "files (fs ?st0) (index_path folder) = Some (index_header E f data)" by simp
  have "distinct (map fst its)" unfolding its_def by (rule distinct_enumerate)
  note fl = thread_loop_files[OF this i0, of E mt mm]
  have ni: "\<And>it. path_join folder (st_filename (entry_of E mm it)) \<noteq> index_path folder"
    by (simp add: index_path_def path_join_inj entry_of_def thread_entry_def thread_filename_not_index)
  have ft: "index_footer E folder (snd ?res\<lparr>fs := X\<rparr>) = index_footer E folder (snd ?res)" for X
    by (simp add: index_footer_def)
  have u: "(r, st) = (case fst ?res of
           Some e \<Rightarrow> (Raised e, snd ?res)
         | None \<Rightarrow> (Returned (Some folder),
                    (snd ?res)\<lparr>fs := append_file (fs (snd ?res)) (index_path folder)
                                     (index_footer E folder (snd ?res))\<rparr>))"
    unfolding assms(1)[symmetric] its_def folder_def run_export_unfold Let_def by (rule refl)
  show "r = (case loop_error E mt its of None \<Rightarrow> Returned (Some folder) | Some e \<Rightarrow> Raised e)"
    using u c by (auto split: option.splits)
  show "stats st = map (entry_of E mm) (exported_threads E mt its)"
    using u c by (auto split: option.splits)
  show "total_threads st = length (exported_threads E mt its)"
    using u c by (auto split: option.splits)
  show "total_messages st =
           sum_list (map (\<lambda>it. st_messages (entry_of E mm it)) (exported_threads E mt its))"
    using u c by (auto split: option.splits)
  show "files (fs st) (index_path folder) =
           Some (index_header E f data @
                 concat (map (\<lambda>it. index_row E (entry_of E mm it)) (exported_threads E mt its)) @
                 (if loop_error E mt its = None then index_footer E folder st else []))"
  proof (cases "fst ?res")
    case None
    with u have st: "st = (snd ?res)\<lparr>fs := append_file (fs (snd ?res)) (index_path folder)
                                     (index_footer E folder (snd ?res))\<rparr>" by simp
    from None c have "loop_error E mt its = None" by simp
    then show ?thesis using fl by (auto simp: st ft)
  next
    case (Some e)
    with u have st: "st = snd ?res" by simp
    from Some c have "loop_error E mt its \<noteq> None" by simp
    then show ?thesis using fl by (auto simp: st)
  qed
  show "\<forall>it \<in> set (exported_threads E mt its).
           files (fs st) (path_join folder (st_filename (entry_of E mm it))) = Some (text_of E mm it)"
  proof (cases "fst ?res")
    case None
    with u have st: "st = (snd ?res)\<lparr>fs := append_file (fs (snd ?res)) (index_path folder)
                                     (index_footer E folder (snd ?res))\<rparr>" by simp
    show ?thesis using fl ni by (simp add: st)
  next
    case (Some e)
    with u have st: "st = snd ?res" by simp
    show ?thesis using fl by (simp add: st)
  qed
qed



section \<open>File names, thread files and the index\<close>

lemma distinct_thread_filenames:
  "distinct (map fst xs) \<Longrightarrow> distinct (map (\<lambda>it. thread_filename (fst it) (g it)) xs)"
proof (induction xs)
  case (Cons x xs)
  then show ?case using thread_filename_inj by (auto simp: image_iff)
qed simp

lemma enumerate_from: "it \<in> set (List.enumerate n xs) \<Longrightarrow> n \<le> fst it"
  by (simp add: in_set_enumerate_eq)

text \<open>
  Claim C10. In one run the file names of the exported threads are pairwise distinct and
  none of them is \<open>00_INDEX.md\<close>: each is the position of its thread, counted from 1 and
  padded to three digits, then an underscore, the sanitized title and \<open>.md\<close>; two file
  names with different positions differ whatever the titles are.
\<close>

theorem thread_filenames_distinct:
  assumes "run_export E f mt mm data fs0 = (r, st)"
  shows "distinct (map st_filename (stats st)) \<and>
         index_name \<notin> set (map st_filename (stats st)) \<and>
         distinct (map st_idx (stats st)) \<and>
         (\<forall>s \<in> set (stats st).
            1 \<le> st_idx s \<and>
            st_filename s =
              pad3 (str_nat (st_idx s)) @ [c_us] @ sanitize_filename (st_title s) True @ lit ''.md'') \<and>
         (\<forall>i j a b. thread_filename i a = thread_filename j b \<longrightarrow> i = j)"
proof -
  let ?its = "List.enumerate 1 (as_threads data)"
  let ?ex = "exported_threads E mt ?its"
  have s: "stats st = map (entry_of E mm) ?ex" by (rule run_export_result(2)[OF assms])
  have d: "distinct (map fst ?ex)"
    by (rule exported_threads_distinct) (rule distinct_enumerate)
  have fn: "map st_filename (stats st) =
            map (\<lambda>it. thread_filename (fst it) (sanitize_filename (thread_title (fst it) (snd it)) True)) ?ex"
    by (simp add: s entry_of_def thread_entry_def)
  have ix: "map st_idx (stats st) = map fst ?ex"
    by (simp add: s entry_of_def thread_entry_def)
  have "distinct (map st_filename (stats st))"
    unfolding fn using d by (rule distinct_thread_filenames)
  moreover have "index_name \<notin> set (map st_filename (stats st))"
    unfolding fn using thread_filename_not_index by (auto simp: image_iff) metis
  moreover have "distinct (map st_idx (stats st))" using ix d by simp
  moreover have "\<forall>s \<in> set (stats st).
            1 \<le> st_idx s \<and>
            st_filename s =
              pad3 (str_nat (st_idx s)) @ [c_us] @ sanitize_filename (st_title s) True @ lit ''.md''"
  proof
    fix s assume "s \<in> set (stats st)"
    then obtain it where it: "it \<in> set ?ex" "s = entry_of E mm it" using s by auto
    then have "it \<in> set ?its" using exported_threads_subset by blast
    then have "1 \<le> fst it" by (rule enumerate_from)
    with it show "1 \<le> st_idx s \<and>
            st_filename s =
              pad3 (str_nat (st_idx s)) @ [c_us] @ sanitize_filename (st_title s) True @ lit ''.md''"
      by (simp add: entry_of_def thread_entry_def thread_filename_def)
  qed
  ultimately show ?thesis using thread_filename_inj by blast
qed











lemma created_line_cases:
  "(\<not> truthy v \<longrightarrow> created_line E v = []) \<and>
   (truthy v \<longrightarrow> (\<exists>d. created_line E v = lit ''- Erstellt: '' @ d @ [c_nl]))"
  by (simp add: created_line_def)

lemma written_count_le: "written_count mm i n \<le> n"
  by (simp add: written_count_def)

text \<open>
  Claim C7. The file of an exported thread starts with the heading \<open>#\<close> and the title,
  then the metadata (the thread id, the creation line when \<open>inserted_at\<close> is truthy, the
  file name), then the section \<open>Chat-Verlauf\<close> with the turns written, in order (and the
  notice when the limit cut them), then the line with the number of turns written.
\<close>

theorem thread_document:
  assumes "run_export E f mt mm data fs0 = (r, st)"
      and "(i, thread) \<in> set (exported_threads E mt (List.enumerate 1 (as_threads data)))"
  shows
    "(let title = thread_title i thread;
          filename = thread_filename i (sanitize_filename title True);
          inserted_at = dict_get thread (lit ''inserted_at'') (JStr []);
          turns = sort_messages E (thread_turns E thread);
          k = written_count mm 0 (length turns)
      in dict_get thread (lit ''title'') (JStr (lit ''Thread_'' @ str_nat i)) = JStr title \<and>
         files (fs st) (path_join (export_folder E f) filename) =
           Some (lit ''# '' @ title @ [c_nl, c_nl] @
                 lit ''**Metadaten:**'' @ [c_nl] @
                 lit ''- Thread-ID: '' @ [96] @
                   py_str E (dict_get thread (lit ''id'') (JStr [])) @ [96, c_nl] @
                 created_line E inserted_at @
                 lit ''- Datei: '' @ [96] @ filename @ [96, c_nl] @
                 [c_nl] @ lit ''---'' @ [c_nl, c_nl] @
                 lit ''## Chat-Verlauf'' @ [c_nl, c_nl] @
                 concat (map (render E) (take k turns)) @
                 (if k < length turns then notice (int (length turns) - the mm) else []) @
                 lit ''---'' @ [c_nl, c_nl] @
                 lit ''**Statistik:** '' @ str_nat k @ lit '' Nachrichten'' @ [c_nl]) \<and>
         (if truthy inserted_at
          then \<exists>d. created_line E inserted_at = lit ''- Erstellt: '' @ d @ [c_nl]
          else created_line E inserted_at = []) \<and>
         k \<le> length turns \<and> (if limit_set mm then True else k = length turns))"
proof -
  have "thread_error E i thread = None"
    using exported_threads_ok[OF assms(2)] by simp
  then have t: "dict_get thread (lit ''title'') (JStr (lit ''Thread_'' @ str_nat i)) =
                JStr (thread_title i thread)"
    by (auto simp: thread_error_def thread_title_def split: json.splits)
  have "files (fs st) (path_join (export_folder E f) (st_filename (entry_of E mm (i, thread)))) =
        Some (text_of E mm (i, thread))"
    using run_export_result(6)[OF assms(1)] assms(2) by blast
  then have f: "files (fs st) (path_join (export_folder E f)
                  (thread_filename i (sanitize_filename (thread_title i thread) True))) =
        Some (text_of E mm (i, thread))"
    by (simp add: st_filename_entry_of)
  show ?thesis
    unfolding Let_def
    using t f created_line_cases[of "dict_get thread (lit ''inserted_at'') (JStr [])" E]
      written_count_le[of mm 0 "length (sort_messages E (thread_turns E thread))"]
    by (simp add: text_of_def thread_text_def thread_header_def chat_heading_def
        thread_footer_def Let_def written_count_def)
qed








section \<open>The example run\<close>

lemma example_threads_ok:
  "list_all (\<lambda>it. is_dict (snd it) \<longrightarrow> thread_error example_env (fst it) (snd it) = None)
     (List.enumerate 1 (as_threads example_data))"
  by code_simp

lemma exported_threads_all:
  assumes "list_all (\<lambda>it. is_dict (snd it) \<longrightarrow> thread_error E (fst it) (snd it) = None) its"
    and "\<not> limit_set mt"
  shows "exported_threads E mt its = filter (\<lambda>it. is_dict (snd it)) its"
  using assms by (induction E mt its rule: exported_threads.induct) auto

lemma example_exported:
  "\<not> limit_set mt \<Longrightarrow>
   map fst (exported_threads example_env mt (List.enumerate 1 (as_threads example_data))) = [1, 3]"
proof -
  assume "\<not> limit_set mt"
  then have "exported_threads example_env mt (List.enumerate 1 (as_threads example_data)) =
             filter (\<lambda>it. is_dict (snd it)) (List.enumerate 1 (as_threads example_data))"
    using example_threads_ok by (rule exported_threads_all[rotated])
  moreover have "map fst (filter (\<lambda>it. is_dict (snd it)) (List.enumerate 1 (as_threads example_data))) = [1, 3]"
    by code_simp
  ultimately show ?thesis by simp
qed

lemma example_export_folder: "export_folder example_env (lit ''chat.json'') = example_folder"
  by code_simp



lemma limit_set_simps: "\<not> limit_set None" "\<not> limit_set (Some 0)"
  by (simp_all add: limit_set_def)

text \<open>The example: the entries 1 and 3 are exported, their file names differ.\<close>

theorem thread_filenames_distinct_witness:
  "\<exists>r st. run_export example_env (lit ''chat.json'') None None example_data empty_fs = (r, st) \<and>
      map st_idx (stats st) = [1, 3] \<and>
      distinct (map st_filename (stats st)) \<and>
      index_name \<notin> set (map st_filename (stats st))"
proof -
  obtain r st where
    run: "run_export example_env (lit ''chat.json'') None None example_data empty_fs = (r, st)"
    by (cases "run_export example_env (lit ''chat.json'') None None example_data empty_fs")
  have "map st_idx (stats st) = [1, 3]"
    using run_export_result(2)[OF run] example_exported[OF limit_set_simps(1)]
    by (simp add: entry_of_def thread_entry_def comp_def)
  moreover have "distinct (map st_filename (stats st))"
    using thread_filenames_distinct[OF run] by (elim conjE)
  moreover have "index_name \<notin> set (map st_filename (stats st))"
    using thread_filenames_distinct[OF run] by (elim conjE)
  ultimately show ?thesis
    using run by (intro exI[of _ r] exI[of _ st] conjI)
qed


text \<open>The file of the third entry of the example, the thread titled \<open>Second\<close>.\<close>

theorem thread_document_witness:
  "\<exists>r st rest.
      run_export example_env (lit ''chat.json'') None None example_data empty_fs = (r, st) \<and>
      files (fs st) (path_join example_folder (lit ''003_Second.md'')) =
        Some (lit ''# '' @ lit ''Second'' @ rest)"
proof -
  let ?th = "JObj [(lit ''title'', JStr (lit ''Second'')),
                 (lit ''mapping'',
                    JObj [(lit ''5'', node [fragment ''THINK'' ''hm'']),
                          (lit ''x'', JInt 7)])]"
  obtain r st where
    run: "run_export example_env (lit ''chat.json'') None None example_data empty_fs = (r, st)"
    by (cases "run_export example_env (lit ''chat.json'') None None example_data empty_fs")
  have "exported_threads example_env None (List.enumerate 1 (as_threads example_data)) =
             filter (\<lambda>it. is_dict (snd it)) (List.enumerate 1 (as_threads example_data))"
    using example_threads_ok limit_set_simps(1) by (rule exported_threads_all)
  moreover have "(3, ?th) \<in> set (filter (\<lambda>it. is_dict (snd it)) (List.enumerate 1 (as_threads example_data)))"
    by code_simp
  ultimately have mem: "(3, ?th) \<in> set (exported_threads example_env None
                                      (List.enumerate 1 (as_threads example_data)))"
    by simp
  have t: "thread_title 3 ?th = lit ''Second''" by code_simp
  have fn: "thread_filename 3 (sanitize_filename (lit ''Second'') True) = lit ''003_Second.md''"
    by code_simp
  have "\<exists>rest. files (fs st) (path_join example_folder (lit ''003_Second.md'')) =
          Some (lit ''# '' @ lit ''Second'' @ rest)"
    using thread_document[OF run mem, unfolded Let_def t fn example_export_folder]
    by (elim conjE) (rule exI, assumption)
  with run show ?thesis by blast
qed



end
